theory Spec2Isabelle
  imports Main "HOL-Library.Multiset"
begin

section \<open>Icon fetchers of jujusvg (iconfetcher.go)\<close>

text \<open>
  The file defines two implementations of the \<open>IconFetcher\<close> interface.  Both walk over
  the services of a bundle, parse the charm reference of each service, and build a map
  from charm paths to icon data: \<open>LinkFetcher\<close> synthesises an SVG image tag that links
  to the icon, \<open>HTTPFetcher\<close> downloads the icon, one task per path, on a
  \<open>parallel.Run\<close>.

  Go strings and byte slices are lists of bytes (\<open>string\<close>).  A Go map is a partial
  function.  The pair \<open>(map[string][]byte, error)\<close> a Go function returns is a pair of
  options: \<open>None\<close> on the left is the nil map, \<open>None\<close> on the right the nil error.
\<close>

type_synonym bytes = string

type_synonym icon_map = "string \<rightharpoonup> bytes"

subsection \<open>Errors\<close>

text \<open>
  The errors \<open>fetchIcon\<close> makes with errgo.  \<open>'c\<close> is the type of the error values that
  the libraries hand over (the cause that \<open>errgo.Notef\<close> wraps).
  \<^item> \<open>HTTPErrorFetching url err\<close>: \<open>errgo.Notef(err, "HTTP error fetching %s: %v", url, err)\<close>
  \<^item> \<open>CannotRetrieveIcon url status\<close>: \<open>errgo.Newf("cannot retrieve icon from %s: %s", url, resp.Status)\<close>
  \<^item> \<open>CouldNotReadIcon url err\<close>: \<open>errgo.Notef(err, "could not read icon data from url %s", url)\<close>
\<close>

datatype 'c fetch_error =
    HTTPErrorFetching string 'c
  | CannotRetrieveIcon string string
  | CouldNotReadIcon string 'c

text \<open>
  The errors \<open>FetchIcons\<close> returns: \<open>CannotParseCharm raw err\<close> is
  \<open>errgo.Notef(err, "cannot parse charm %q", serviceData.Charm)\<close>, and \<open>WaitError w\<close> is the
  value \<open>w\<close> that \<open>run.Wait()\<close> returned, handed on as it is.
\<close>

datatype ('c, 'w) icons_error =
    CannotParseCharm string 'c
  | WaitError 'w

subsection \<open>The libraries the file calls\<close>

text \<open>
  What \<open>client.Get(url)\<close> hands back when it does not fail: the status code, the status
  line, and what \<open>ioutil.ReadAll(resp.Body)\<close> then returns, the bytes read and the error
  that ended the read, if any.
\<close>

record 'c response =
  StatusCode :: int
  Status :: string
  ReadAll :: "bytes \<times> 'c option"

text \<open>
  The packages charm, xml, net/http and parallel are not part of the sources; what the
  file needs of them is a parameter of the model.
  \<^item> \<open>ParseReference\<close>: \<open>charm.ParseReference\<close>, an error or a reference;
  \<^item> \<open>Path\<close>: the method \<open>Path()\<close> of a reference;
  \<^item> \<open>EscapeText\<close>: the bytes \<open>xml.EscapeText\<close> writes for a given input;
  \<^item> \<open>Get\<close>: the method \<open>Get\<close> of an HTTP client;
  \<^item> \<open>DefaultClient\<close>: \<open>http.DefaultClient\<close>;
  \<^item> \<open>WaitErr\<close>: the error value \<open>Wait\<close> of the runner makes of the failures of the
    tasks, when there is one.
\<close>

record ('c, 'ref, 'client, 'w) externals =
  ParseReference :: "string \<Rightarrow> 'c + 'ref"
  Path :: "'ref \<Rightarrow> string"
  EscapeText :: "string \<Rightarrow> string"
  Get :: "'client \<Rightarrow> string \<Rightarrow> 'c + 'c response"
  DefaultClient :: "'client"
  WaitErr :: "'c fetch_error list \<Rightarrow> 'w"

subsection \<open>The text escaper\<close>

text \<open>
  Modelled from the spec: the text escaper of package xml, which is not part of the
  sources.  The spec asks for the standard text escaping of the target format, under
  which the reserved characters \<open><\<close>, \<open>&\<close> and the double quote do not reach the document
  as they are.  The model is \<open>EscapeText\<close> of Go's encoding/xml, of which the package is a
  copy.  It cuts the input into UTF-8 encodings with \<open>utf8.DecodeRune\<close>, which yields the
  rune and the width of the first encoding, and \<open>RuneError\<close> with width 1 for a byte that
  starts no valid encoding.  The double quote, the apostrophe, \<open>&\<close>, \<open><\<close>, \<open>>\<close>, tab, line
  feed and carriage return are written as references; a rune outside the character
  range, and a byte that is no encoding, is written as U+FFFD; the bytes of every other
  rune are copied.  The character range is the one of the \<open>Char\<close> production; no rune
  between 0xD800 and 0xDFFF is ever decoded, so where exactly the range ends below 0xE000
  makes no difference.  The package writes the copied bytes in runs, between two
  replacements; the model writes them rune by rune, which gives the same text.  The
  fetchers below take the escaper from \<open>externals\<close>, so what is proved of them holds for
  any escaper, and for this one in particular.
\<close>

definition RuneError :: int where
  "RuneError = 0xFFFD"

definition continues :: "char \<Rightarrow> int \<Rightarrow> int \<Rightarrow> bool" where
  "continues b lo hi = (lo \<le> of_char b \<and> (of_char b :: int) \<le> hi)"

fun DecodeRune :: "string \<Rightarrow> int \<times> nat" where
  "DecodeRune [] = (RuneError, 0)"
| "DecodeRune (p0 # rest) =
     (let b0 = (of_char p0 :: int) in
      if b0 < 0x80 then (b0, 1)
      else if b0 < 0xC2 then (RuneError, 1)
      else if b0 < 0xE0 then
        (case rest of
           b1 # _ \<Rightarrow>
             if continues b1 0x80 0xBF then ((b0 mod 0x20) * 0x40 + of_char b1 mod 0x40, 2)
             else (RuneError, 1)
         | _ \<Rightarrow> (RuneError, 1))
      else if b0 < 0xF0 then
        (case rest of
           b1 # b2 # _ \<Rightarrow>
             if continues b1 (if b0 = 0xE0 then 0xA0 else 0x80) (if b0 = 0xED then 0x9F else 0xBF)
                \<and> continues b2 0x80 0xBF
             then ((b0 mod 0x10) * 0x1000 + (of_char b1 mod 0x40) * 0x40 + of_char b2 mod 0x40, 3)
             else (RuneError, 1)
         | _ \<Rightarrow> (RuneError, 1))
      else if b0 < 0xF5 then
        (case rest of
           b1 # b2 # b3 # _ \<Rightarrow>
             if continues b1 (if b0 = 0xF0 then 0x90 else 0x80) (if b0 = 0xF4 then 0x8F else 0xBF)
                \<and> continues b2 0x80 0xBF \<and> continues b3 0x80 0xBF
             then ((b0 mod 0x08) * 0x40000 + (of_char b1 mod 0x40) * 0x1000
                     + (of_char b2 mod 0x40) * 0x40 + of_char b3 mod 0x40, 4)
             else (RuneError, 1)
         | _ \<Rightarrow> (RuneError, 1))
      else (RuneError, 1))"

definition isInCharacterRange :: "int \<Rightarrow> bool" where
  "isInCharacterRange r =
     (r = 0x09 \<or> r = 0x0A \<or> r = 0x0D \<or> (0x20 \<le> r \<and> r \<le> 0xD7FF) \<or>
      (0xE000 \<le> r \<and> r \<le> 0xFFFD) \<or> (0x10000 \<le> r \<and> r \<le> 0x10FFFF))"

definition escape_rune :: "int \<Rightarrow> nat \<Rightarrow> string \<Rightarrow> string" where
  "escape_rune r width encoding =
     (if r = 0x22 then ''&#34;''
      else if r = 0x27 then ''&#39;''
      else if r = 0x26 then ''&amp;''
      else if r = 0x3C then ''&lt;''
      else if r = 0x3E then ''&gt;''
      else if r = 0x09 then ''&#x9;''
      else if r = 0x0A then ''&#xA;''
      else if r = 0x0D then ''&#xD;''
      else if \<not> isInCharacterRange r \<or> (r = 0xFFFD \<and> width = 1)
      then [CHR 0xEF, CHR 0xBF, CHR 0xBD]
      else encoding)"

function xml_EscapeText :: "string \<Rightarrow> string" where
  "xml_EscapeText s =
     (if s = [] then []
      else escape_rune (fst (DecodeRune s)) (snd (DecodeRune s)) (take (snd (DecodeRune s)) s)
           @ xml_EscapeText (drop (snd (DecodeRune s)) s))"
  by pat_completeness auto
termination
proof (relation "measure length")
  show "wf (measure length)" by simp
next
  fix s :: string
  assume "s \<noteq> []"
  then have "0 < snd (DecodeRune s)"
    by (cases s) (auto simp: Let_def split: list.splits)
  with \<open>s \<noteq> []\<close> show "(drop (snd (DecodeRune s)) s, s) \<in> measure length"
    by simp
qed

declare xml_EscapeText.simps [simp del]

text \<open>
  What the escaping is for: a text is well escaped when it holds neither \<open><\<close> nor a
  double quote, and every \<open>&\<close> in it starts one of the references the escaper writes.
\<close>

definition references :: "string list" where
  "references = [''#34;'', ''#39;'', ''amp;'', ''lt;'', ''gt;'', ''#x9;'', ''#xA;'', ''#xD;'']"

fun well_escaped :: "string \<Rightarrow> bool" where
  "well_escaped [] = True"
| "well_escaped (c # s) =
     (c \<noteq> CHR ''<'' \<and> c \<noteq> CHR 0x22 \<and>
      (c = CHR ''&'' \<longrightarrow> (\<exists>e\<in>set references. take (length e) s = e)) \<and>
      well_escaped s)"

subsection \<open>The two fetchers\<close>

text \<open>
  Both structs have a field \<open>IconURL\<close>; the one of \<open>LinkFetcher\<close> is \<open>LinkIconURL\<close> here.
  The field is taken to be set: with a nil func the first call of it panics.  A
  reference is a \<open>*charm.Reference\<close>; its type is a parameter.
\<close>

record 'ref LinkFetcher =
  LinkIconURL :: "'ref \<Rightarrow> string"

text \<open>
  \<open>Concurrency\<close> is a Go \<open>int\<close>; the code only compares it with 0 and passes it on, so
  no arithmetic can overflow and it is modelled as an integer.  \<open>Client\<close> is a pointer,
  \<open>None\<close> when nil.
\<close>

record ('ref, 'client) HTTPFetcher =
  Concurrency :: int
  IconURL :: "'ref \<Rightarrow> string"
  Client :: "'client option"

subsection \<open>escapeString\<close>

text \<open>\<open>escapeString\<close> lets \<open>xml.EscapeText\<close> write into a fresh buffer and returns the buffer.\<close>

definition escapeString :: "('c, 'ref, 'client, 'w) externals \<Rightarrow> string \<Rightarrow> string" where
  "escapeString ext s = (let buf = [] in buf @ EscapeText ext s)"

subsection \<open>LinkFetcher.FetchIcons\<close>

text \<open>
  The format string of the image tag, cut at its only verb \<open>%s\<close>: a line feed and four
  tabs before \<open>svg\<close>, a line feed and five tabs before \<open>image\<close>, a line feed and four tabs
  before the closing tag.
\<close>

definition svg_before :: string where
  "svg_before =
     [CHR 0x0A, CHR 0x09, CHR 0x09, CHR 0x09, CHR 0x09] @ ''<svg xmlns:xlink='' @ [CHR 0x22]
     @ ''http://www.w3.org/1999/xlink'' @ [CHR 0x22] @ ''>''
     @ [CHR 0x0A, CHR 0x09, CHR 0x09, CHR 0x09, CHR 0x09, CHR 0x09] @ ''<image width='' @ [CHR 0x22]
     @ ''96'' @ [CHR 0x22] @ '' height='' @ [CHR 0x22] @ ''96'' @ [CHR 0x22]
     @ '' xlink:href='' @ [CHR 0x22]"

definition svg_after :: string where
  "svg_after =
     [CHR 0x22] @ '' />'' @ [CHR 0x0A, CHR 0x09, CHR 0x09, CHR 0x09, CHR 0x09] @ ''</svg>''"

definition image_tag :: "string \<Rightarrow> bytes" where
  "image_tag href = svg_before @ href @ svg_after"

text \<open>Reading a \<open>map[string]bool\<close>: a missing key reads as false.\<close>

definition fetched :: "(string \<rightharpoonup> bool) \<Rightarrow> string \<Rightarrow> bool" where
  "fetched alreadyFetched path = (case alreadyFetched path of None \<Rightarrow> False | Some b \<Rightarrow> b)"

text \<open>
  The range loop.  A bundle is given by the list of the \<open>serviceData.Charm\<close> strings of
  \<open>b.Services\<close> in the order in which the loop visits them; \<open>Services\<close> is a Go map, so
  any order of its entries can be the one of a call, and what holds for every list holds
  for every order.  The state of the loop is \<open>alreadyFetched\<close> and \<open>icons\<close>.
\<close>

fun LinkFetcher_loop ::
  "('c, 'ref, 'client, 'w) externals \<Rightarrow> 'ref LinkFetcher \<Rightarrow> string list \<Rightarrow>
   (string \<rightharpoonup> bool) \<Rightarrow> icon_map \<Rightarrow> icon_map option \<times> ('c, 'w) icons_error option" where
  "LinkFetcher_loop ext l [] alreadyFetched icons = (Some icons, None)"
| "LinkFetcher_loop ext l (raw # rest) alreadyFetched icons =
     (case ParseReference ext raw of
        Inl err \<Rightarrow> (None, Some (CannotParseCharm raw err))
      | Inr charmId \<Rightarrow>
          (let path = Path ext charmId in
           if \<not> fetched alreadyFetched path
           then LinkFetcher_loop ext l rest (alreadyFetched(path \<mapsto> True))
                  (icons(path \<mapsto> image_tag (escapeString ext (LinkIconURL l charmId))))
           else LinkFetcher_loop ext l rest alreadyFetched icons))"

definition LinkFetcher_FetchIcons ::
  "('c, 'ref, 'client, 'w) externals \<Rightarrow> 'ref LinkFetcher \<Rightarrow> string list \<Rightarrow>
   icon_map option \<times> ('c, 'w) icons_error option" where
  "LinkFetcher_FetchIcons ext l services = LinkFetcher_loop ext l services Map.empty Map.empty"

subsection \<open>HTTPFetcher.fetchIcon\<close>

text \<open>
  The three early returns and the final one, in the order of the source.  The deferred
  \<open>resp.Body.Close()\<close> changes nothing that is returned.
\<close>

definition fetchIcon ::
  "('c, 'ref, 'client, 'w) externals \<Rightarrow> string \<Rightarrow> 'client \<Rightarrow> 'c fetch_error + bytes" where
  "fetchIcon ext url client =
     (case Get ext client url of
        Inl err \<Rightarrow> Inl (HTTPErrorFetching url err)
      | Inr resp \<Rightarrow>
          if StatusCode resp \<noteq> 200 then Inl (CannotRetrieveIcon url (Status resp))
          else (case ReadAll resp of
                  (body, Some err) \<Rightarrow> Inl (CouldNotReadIcon url err)
                | (body, None) \<Rightarrow> Inr body))"

subsection \<open>The runner\<close>

text \<open>
  A task is the function literal handed to \<open>run.Do\<close>, given by the variables it
  captures and that differ from task to task: \<open>charmId\<close> and \<open>path\<close>, both declared in the
  body of the loop, so every task has its own.
\<close>

type_synonym 'ref fetch_task = "'ref \<times> string"

text \<open>
  The body of the task: fetch the icon; on an error return it and leave \<open>icons\<close> alone,
  otherwise store the icon under \<open>path\<close> (with the mutex held) and return nil.
\<close>

definition task_body ::
  "('c, 'ref, 'client, 'w) externals \<Rightarrow> ('ref, 'client) HTTPFetcher \<Rightarrow> 'client \<Rightarrow>
   'ref fetch_task \<Rightarrow> icon_map \<Rightarrow> 'c fetch_error option \<times> icon_map" where
  "task_body ext h client t icons =
     (case t of (charmId, path) \<Rightarrow>
        (case fetchIcon ext (IconURL h charmId) client of
           Inl err \<Rightarrow> (Some err, icons)
         | Inr icon \<Rightarrow> (None, icons(path \<mapsto> icon))))"

text \<open>
  Modelled from the spec: the bounded parallel runner (package parallel is not part of
  the sources).  \<open>NewRun\<close> keeps the cap, \<open>Do\<close> registers a task, and \<open>Wait\<close> returns once
  every registered task has completed, with no error if all succeeded and with exactly
  one error value if at least one failed.  The tasks touch shared state only in the
  store under the mutex, so a run is a sequence of task bodies; \<open>run_tasks\<close> takes them
  in the order of submission, and \<open>run_tasks_order\<close> below shows that no other order
  gives another map or other failures.
\<close>

record 'ref run =
  maxPar :: int
  tasks :: "'ref fetch_task list"

definition NewRun :: "int \<Rightarrow> 'ref run" where
  "NewRun n = \<lparr>maxPar = n, tasks = []\<rparr>"

definition run_Do :: "'ref run \<Rightarrow> 'ref fetch_task \<Rightarrow> 'ref run" where
  "run_Do r f = r\<lparr>tasks := tasks r @ [f]\<rparr>"

fun run_tasks ::
  "('t \<Rightarrow> icon_map \<Rightarrow> 'e option \<times> icon_map) \<Rightarrow> 't list \<Rightarrow> icon_map \<Rightarrow> 'e list \<times> icon_map" where
  "run_tasks body [] icons = ([], icons)"
| "run_tasks body (t # ts) icons =
     (case body t icons of
        (None, icons') \<Rightarrow> run_tasks body ts icons'
      | (Some err, icons') \<Rightarrow>
          (case run_tasks body ts icons' of (errs, icons'') \<Rightarrow> (err # errs, icons'')))"

definition run_Wait ::
  "('e list \<Rightarrow> 'w) \<Rightarrow> ('ref fetch_task \<Rightarrow> icon_map \<Rightarrow> 'e option \<times> icon_map) \<Rightarrow> 'ref run \<Rightarrow>
   icon_map \<Rightarrow> 'w option \<times> icon_map" where
  "run_Wait waitErr body r icons =
     (case run_tasks body (tasks r) icons of
        (errs, icons') \<Rightarrow> (if errs = [] then None else Some (waitErr errs), icons'))"

subsection \<open>HTTPFetcher.FetchIcons\<close>

text \<open>
  The range loop: the state is \<open>alreadyFetched\<close> and the runner.  A parse error leaves
  the loop, and the function, at once; the runner then holds the tasks handed to \<open>Do\<close>
  before.
\<close>

fun HTTPFetcher_loop ::
  "('c, 'ref, 'client, 'w) externals \<Rightarrow> string list \<Rightarrow> (string \<rightharpoonup> bool) \<Rightarrow> 'ref run \<Rightarrow>
   ('c, 'w) icons_error option \<times> 'ref run" where
  "HTTPFetcher_loop ext [] alreadyFetched r = (None, r)"
| "HTTPFetcher_loop ext (raw # rest) alreadyFetched r =
     (case ParseReference ext raw of
        Inl err \<Rightarrow> (Some (CannotParseCharm raw err), r)
      | Inr charmId \<Rightarrow>
          (let path = Path ext charmId in
           if fetched alreadyFetched path
           then HTTPFetcher_loop ext rest alreadyFetched r
           else HTTPFetcher_loop ext rest (alreadyFetched(path \<mapsto> True))
                  (run_Do r (charmId, path))))"

text \<open>
  What a call leaves behind: the pair it returns, the receiver \<open>h\<close> as it is after the
  call, the locals \<open>client\<close> and \<open>concurrency\<close>, and the runner with the tasks handed to
  \<open>Do\<close>.
\<close>

record ('c, 'ref, 'client, 'w) fetch_call =
  returned :: "icon_map option \<times> ('c, 'w) icons_error option"
  receiver :: "('ref, 'client) HTTPFetcher"
  client_local :: "'client"
  concurrency_local :: int
  runner :: "'ref run"

definition HTTPFetcher_FetchIcons ::
  "('c, 'ref, 'client, 'w) externals \<Rightarrow> ('ref, 'client) HTTPFetcher \<Rightarrow> string list \<Rightarrow>
   ('c, 'ref, 'client, 'w) fetch_call" where
  "HTTPFetcher_FetchIcons ext h services =
     (let client = (case Client h of Some c \<Rightarrow> c | None \<Rightarrow> DefaultClient ext);
          concurrency = (if Concurrency h \<le> 0 then 10 else Concurrency h);
          icons = Map.empty;
          alreadyFetched = Map.empty;
          r = NewRun concurrency
      in case HTTPFetcher_loop ext services alreadyFetched r of
           (Some err, r') \<Rightarrow>
             \<lparr>returned = (None, Some err), receiver = h, client_local = client,
              concurrency_local = concurrency, runner = r'\<rparr>
         | (None, r') \<Rightarrow>
             (case run_Wait (WaitErr ext) (task_body ext h client) r' icons of
                (Some err, icons') \<Rightarrow>
                  \<lparr>returned = (None, Some (WaitError err)), receiver = h, client_local = client,
                   concurrency_local = concurrency, runner = r'\<rparr>
              | (None, icons') \<Rightarrow>
                  \<lparr>returned = (Some icons', None), receiver = h, client_local = client,
                   concurrency_local = concurrency, runner = r'\<rparr>))"

subsection \<open>The references and paths of a bundle\<close>

text \<open>The references the loop parses out of the services, in the order of the visit.\<close>

fun charmIds :: "('c, 'ref, 'client, 'w) externals \<Rightarrow> string list \<Rightarrow> 'ref list" where
  "charmIds ext [] = []"
| "charmIds ext (raw # rest) =
     (case ParseReference ext raw of Inl err \<Rightarrow> charmIds ext rest | Inr charmId \<Rightarrow> charmId # charmIds ext rest)"

text \<open>\<open>parses\<close>: \<open>charm.ParseReference\<close> accepts the string.\<close>

definition parses :: "('c, 'ref, 'client, 'w) externals \<Rightarrow> string \<Rightarrow> bool" where
  "parses ext raw = (case ParseReference ext raw of Inl err \<Rightarrow> False | Inr charmId \<Rightarrow> True)"

text \<open>The first reference of the bundle, in the order of the visit, that has the given path.\<close>

definition first_with_path :: "('c, 'ref, 'client, 'w) externals \<Rightarrow> string list \<Rightarrow> string \<Rightarrow> 'ref option" where
  "first_with_path ext services p = find (\<lambda>c. Path ext c = p) (charmIds ext services)"

text \<open>
  \<open>firsts key xs\<close> keeps of every key the first element that has it; it describes the
  tasks the loop of \<open>HTTPFetcher.FetchIcons\<close> hands to the runner.
\<close>

fun firsts :: "('a \<Rightarrow> 'k) \<Rightarrow> 'a list \<Rightarrow> 'a list" where
  "firsts key [] = []"
| "firsts key (x # xs) = x # firsts key (filter (\<lambda>y. key y \<noteq> key x) xs)"

text \<open>What one task does: the error it returns, if any, and the icon it stores, if any.\<close>

definition task_error ::
  "('c, 'ref, 'client, 'w) externals \<Rightarrow> ('ref, 'client) HTTPFetcher \<Rightarrow> 'client \<Rightarrow>
   'ref fetch_task \<Rightarrow> 'c fetch_error option" where
  "task_error ext h client t =
     (case fetchIcon ext (IconURL h (fst t)) client of Inl err \<Rightarrow> Some err | Inr icon \<Rightarrow> None)"

definition task_icon ::
  "('c, 'ref, 'client, 'w) externals \<Rightarrow> ('ref, 'client) HTTPFetcher \<Rightarrow> 'client \<Rightarrow>
   'ref \<Rightarrow> bytes option" where
  "task_icon ext h client c =
     (case fetchIcon ext (IconURL h c) client of Inl err \<Rightarrow> None | Inr icon \<Rightarrow> Some icon)"

subsection \<open>A small world for examples\<close>

text \<open>
  References are a schema and a path: \<open>cs:\<close> (the default) and \<open>local:\<close> are the schemas,
  and a string that is empty or holds a blank is not a reference.  The escaper is the
  one of package xml as modelled above.  The client knows five URLs and no other host.
\<close>

definition example_parse :: "string \<Rightarrow> string + string \<times> string" where
  "example_parse raw =
     (if raw = [] \<or> CHR '' '' \<in> set raw then Inl ''charm URL has invalid form''
      else if take 3 raw = ''cs:'' then Inr (''cs'', drop 3 raw)
      else if take 6 raw = ''local:'' then Inr (''local'', drop 6 raw)
      else Inr (''cs'', raw))"

definition example_get :: "nat \<Rightarrow> string \<Rightarrow> string + string response" where
  "example_get client url =
     (if url = ''/cs/trusty/mysql.svg?a&b''
      then Inr \<lparr>StatusCode = 200, Status = ''200 OK'', ReadAll = (''<svg/>'', None)\<rparr>
      else if url = ''/cs/wordpress.svg?a&b''
      then Inr \<lparr>StatusCode = 200, Status = ''200 OK'', ReadAll = (''<svg></svg>'', None)\<rparr>
      else if url = ''/cs/gone.svg?a&b''
      then Inr \<lparr>StatusCode = 404, Status = ''404 Not Found'', ReadAll = ([], None)\<rparr>
      else if url = ''/cs/empty.svg?a&b''
      then Inr \<lparr>StatusCode = 204, Status = ''204 No Content'', ReadAll = ([], None)\<rparr>
      else if url = ''/cs/cut.svg?a&b''
      then Inr \<lparr>StatusCode = 200, Status = ''200 OK'', ReadAll = (''<sv'', Some ''unexpected EOF'')\<rparr>
      else Inl ''no such host'')"

definition example_ext ::
  "(string, string \<times> string, nat, string fetch_error list) externals" where
  "example_ext =
     \<lparr>ParseReference = example_parse, Path = snd, EscapeText = xml_EscapeText,
      Get = example_get, DefaultClient = 0, WaitErr = (\<lambda>errs. errs)\<rparr>"

definition example_url :: "string \<times> string \<Rightarrow> string" where
  "example_url c = ''/'' @ fst c @ ''/'' @ snd c @ ''.svg?a&b''"

definition example_link :: "(string \<times> string) LinkFetcher" where
  "example_link = \<lparr>LinkIconURL = example_url\<rparr>"

definition example_http :: "(string \<times> string, nat) HTTPFetcher" where
  "example_http = \<lparr>Concurrency = 0, IconURL = example_url, Client = None\<rparr>"

lemmas example_defs =
  example_ext_def example_parse_def example_get_def example_url_def
  example_link_def example_http_def

section \<open>Properties of the text escaper\<close>

text \<open>
  Whatever the input, \<open>xml_EscapeText\<close> writes a well escaped text: a byte that is copied
  is either an ASCII character the escaper does not replace or a byte of an encoding of
  two or more bytes, and those are all above the ASCII range.
\<close>

lemma well_escaped_plain:
  "\<forall>c\<in>set p. c \<noteq> CHR ''<'' \<and> c \<noteq> CHR 0x22 \<and> c \<noteq> CHR ''&'' \<Longrightarrow>
   well_escaped (p @ t) = well_escaped t"
  by (induction p) auto

lemma DecodeRune_copied:
  assumes "DecodeRune s = (r, w)" and "s \<noteq> []"
    and "r \<noteq> 0x22" and "r \<noteq> 0x26" and "r \<noteq> 0x3C" and "\<not> (r = 0xFFFD \<and> w = 1)"
  shows "\<forall>c\<in>set (take w s). (of_char c :: int) \<noteq> 0x22 \<and> (of_char c :: int) \<noteq> 0x26 \<and> (of_char c :: int) \<noteq> 0x3C"
proof -
  from assms(2) obtain p0 rest where s: "s = p0 # rest" by (cases s) auto
  show ?thesis
    using assms(1,3-6) unfolding s
    by (auto simp: Let_def RuneError_def continues_def split: list.splits if_splits)
qed

lemma plain_char:
  "(of_char c :: int) \<noteq> 0x22 \<and> (of_char c :: int) \<noteq> 0x26 \<and> (of_char c :: int) \<noteq> 0x3C \<Longrightarrow>
   c \<noteq> CHR ''<'' \<and> c \<noteq> CHR 0x22 \<and> c \<noteq> CHR ''&''"
  by auto

lemma well_escaped_escape_rune:
  assumes "s \<noteq> []"
  shows "well_escaped (escape_rune (fst (DecodeRune s)) (snd (DecodeRune s))
           (take (snd (DecodeRune s)) s) @ t) = well_escaped t"
proof -
  obtain r w where d: "DecodeRune s = (r, w)" by (cases "DecodeRune s")
  have copied: "well_escaped (take w s @ t) = well_escaped t"
    if "r \<noteq> 0x22" and "r \<noteq> 0x26" and "r \<noteq> 0x3C" and "\<not> (r = 0xFFFD \<and> w = 1)"
    using DecodeRune_copied [OF d assms that] plain_char
    by (intro well_escaped_plain) blast
  have replaced: "well_escaped ([CHR 0xEF, CHR 0xBF, CHR 0xBD] @ t) = well_escaped t"
    by simp
  show ?thesis
    unfolding d fst_conv snd_conv escape_rune_def
    using copied replaced by (simp add: references_def)
qed

lemma well_escaped_EscapeText: "well_escaped (xml_EscapeText s)"
proof (induction s rule: xml_EscapeText.induct)
  case (1 s)
  show ?case
  proof (cases "s = []")
    case True
    then show ?thesis by (simp add: xml_EscapeText.simps)
  next
    case False
    with 1 have "well_escaped (xml_EscapeText (drop (snd (DecodeRune s)) s))" by simp
    with False show ?thesis
      by (subst xml_EscapeText.simps) (simp add: well_escaped_escape_rune)
  qed
qed

section \<open>Properties of the loops\<close>

subsection \<open>First occurrences\<close>

lemma set_firsts: "key ` set (firsts key xs) = key ` set xs"
  by (induction key xs rule: firsts.induct) auto

lemma set_firsts_subset: "set (firsts key xs) \<subseteq> set xs"
  by (induction key xs rule: firsts.induct) auto

lemma distinct_firsts: "distinct (map key (firsts key xs))"
proof (induction key xs rule: firsts.induct)
  case (1 key)
  then show ?case by simp
next
  case (2 key x xs)
  have "key x \<notin> key ` set (firsts key (filter (\<lambda>y. key y \<noteq> key x) xs))"
    using set_firsts_subset [of key "filter (\<lambda>y. key y \<noteq> key x) xs"] by auto
  with 2 show ?case by simp
qed

lemma firsts_find: "c \<in> set (firsts key xs) \<longleftrightarrow> find (\<lambda>y. key y = key c) xs = Some c"
proof (induction key xs rule: firsts.induct)
  case (1 key)
  then show ?case by simp
next
  case (2 key x xs)
  have f: "key c \<noteq> key x \<Longrightarrow> find (\<lambda>y. key y = key c) (filter (\<lambda>y. key y \<noteq> key x) xs) = find (\<lambda>y. key y = key c) xs"
    by (induction xs) auto
  show ?case
  proof (cases "key c = key x")
    case True
    then have "c \<notin> set (firsts key (filter (\<lambda>y. key y \<noteq> key x) xs))"
      using set_firsts_subset [of key "filter (\<lambda>y. key y \<noteq> key x) xs"] by auto
    with True show ?thesis by auto
  next
    case False
    with 2 f show ?thesis by auto
  qed
qed

lemma find_firsts: "find (\<lambda>y. key y = k) (firsts key xs) = find (\<lambda>y. key y = k) xs"
proof (induction key xs rule: firsts.induct)
  case (1 key)
  then show ?case by simp
next
  case (2 key x xs)
  have f: "k \<noteq> key x \<Longrightarrow> find (\<lambda>y. key y = k) (filter (\<lambda>y. key y \<noteq> key x) xs) = find (\<lambda>y. key y = k) xs"
    by (induction xs) auto
  from 2 f show ?case by auto
qed

lemma firsts_Nil: "(firsts key xs = []) = (xs = [])"
  by (cases xs) auto

lemma find_map_task:
  "find (\<lambda>t. snd t = p) (map (\<lambda>c. (c, key c)) cs) = map_option (\<lambda>c. (c, key c)) (find (\<lambda>c. key c = p) cs)"
  by (induction cs) auto

lemma count_list_distinct: "distinct xs \<Longrightarrow> count_list xs x = (if x \<in> set xs then 1 else 0)"
  by (induction xs) auto

lemma filter_distinct_key:
  "distinct (map snd ts) \<Longrightarrow> (c, p) \<in> set ts \<Longrightarrow> filter (\<lambda>t. snd t = p) ts = [(c, p)]"
proof (induction ts)
  case Nil
  then show ?case by simp
next
  case (Cons t ts)
  show ?case
  proof (cases "t = (c, p)")
    case True
    from Cons.prems(1) True have "p \<notin> snd ` set ts" by simp
    then have "filter (\<lambda>t. snd t = p) ts = []"
      unfolding filter_empty_conv by (metis imageI)
    with True show ?thesis by simp
  next
    case False
    with Cons.prems have in_ts: "(c, p) \<in> set ts" by simp
    from Cons.prems(1) have "snd t \<notin> snd ` set ts" by simp
    with in_ts have "snd t \<noteq> p" by (metis imageI snd_conv)
    with Cons in_ts show ?thesis by simp
  qed
qed

lemma first_with_path_dom:
  "(first_with_path ext services p \<noteq> None) = (p \<in> Path ext ` set (charmIds ext services))"
  by (auto simp: first_with_path_def find_None_iff)

lemma charmIds_Nil: "\<forall>raw\<in>set good. parses ext raw \<Longrightarrow> (charmIds ext good = []) = (good = [])"
  by (cases good) (auto simp: parses_def split: sum.splits)

subsection \<open>The loop of LinkFetcher\<close>

lemma LinkFetcher_loop_ok:
  "\<forall>raw\<in>set services. parses ext raw \<Longrightarrow>
   LinkFetcher_loop ext l services af icons =
     (Some (\<lambda>p. case (if fetched af p then None else find (\<lambda>c. Path ext c = p) (charmIds ext services)) of
                  None \<Rightarrow> icons p
                | Some c \<Rightarrow> Some (image_tag (escapeString ext (LinkIconURL l c)))), None)"
proof (induction services arbitrary: af icons)
  case Nil
  then show ?case by (auto intro!: ext)
next
  case (Cons raw rest)
  then obtain c where c: "ParseReference ext raw = Inr c"
    by (auto simp: parses_def split: sum.splits)
  from Cons have rest: "\<forall>raw\<in>set rest. parses ext raw" by simp
  show ?case
  proof (cases "fetched af (Path ext c)")
    case True
    have "LinkFetcher_loop ext l (raw # rest) af icons = LinkFetcher_loop ext l rest af icons"
      using c True by (simp add: Let_def)
    also note Cons.IH [OF rest]
    finally show ?thesis
      using c True by (auto intro!: ext)
  next
    case False
    have "LinkFetcher_loop ext l (raw # rest) af icons =
        LinkFetcher_loop ext l rest (af(Path ext c \<mapsto> True))
          (icons(Path ext c \<mapsto> image_tag (escapeString ext (LinkIconURL l c))))"
      using c False by (simp add: Let_def)
    also note Cons.IH [OF rest]
    finally show ?thesis
      using c False by (auto intro!: ext simp: fetched_def split: option.splits)
  qed
qed

lemma LinkFetcher_loop_err:
  "\<forall>raw\<in>set good. parses ext raw \<Longrightarrow> ParseReference ext bad = Inl err \<Longrightarrow>
   LinkFetcher_loop ext l (good @ bad # rest) af icons = (None, Some (CannotParseCharm bad err))"
proof (induction good arbitrary: af icons)
  case Nil
  then show ?case by simp
next
  case (Cons raw good)
  then obtain c where c: "ParseReference ext raw = Inr c"
    by (auto simp: parses_def split: sum.splits)
  from Cons c show ?case
    by (simp add: Let_def)
qed

lemma LinkFetcher_FetchIcons_ok:
  assumes "\<forall>raw\<in>set services. parses ext raw"
  shows "LinkFetcher_FetchIcons ext l services =
     (Some (\<lambda>p. case first_with_path ext services p of
                   None \<Rightarrow> None
                 | Some c \<Rightarrow> Some (image_tag (escapeString ext (LinkIconURL l c)))), None)"
  using LinkFetcher_loop_ok [OF assms, of l Map.empty Map.empty]
  by (simp add: LinkFetcher_FetchIcons_def fetched_def first_with_path_def)

subsection \<open>The loop of HTTPFetcher\<close>

lemma HTTPFetcher_loop_ok:
  "\<forall>raw\<in>set services. parses ext raw \<Longrightarrow>
   HTTPFetcher_loop ext services af r =
     (None, r\<lparr>tasks := tasks r @ map (\<lambda>c. (c, Path ext c))
        (firsts (Path ext) (filter (\<lambda>c. \<not> fetched af (Path ext c)) (charmIds ext services)))\<rparr>)"
proof (induction services arbitrary: af r)
  case Nil
  then show ?case by simp
next
  case (Cons raw rest)
  then obtain c where c: "ParseReference ext raw = Inr c"
    by (auto simp: parses_def split: sum.splits)
  have eq: "filter (\<lambda>x. \<not> fetched af (Path ext x) \<and> Path ext x \<noteq> Path ext c) xs
     = filter (\<lambda>ca. \<not> fetched (af(Path ext c \<mapsto> True)) (Path ext ca)) xs" for xs
    by (induction xs) (auto simp: fetched_def)
  from Cons c show ?case
    by (simp add: run_Do_def eq Let_def)
qed

lemma HTTPFetcher_loop_err:
  "\<forall>raw\<in>set good. parses ext raw \<Longrightarrow> ParseReference ext bad = Inl err \<Longrightarrow>
   HTTPFetcher_loop ext (good @ bad # rest) af r =
     (Some (CannotParseCharm bad err), snd (HTTPFetcher_loop ext good af r))"
proof (induction good arbitrary: af r)
  case Nil
  then show ?case by simp
next
  case (Cons raw good)
  then obtain c where c: "ParseReference ext raw = Inr c"
    by (auto simp: parses_def split: sum.splits)
  from Cons c show ?case
    by (simp add: Let_def)
qed

lemma maxPar_loop: "maxPar (snd (HTTPFetcher_loop ext services af r)) = maxPar r"
  by (induction services arbitrary: af r) (auto simp: Let_def run_Do_def split: sum.splits)

lemma loop_good_tasks:
  "\<forall>raw\<in>set good. parses ext raw \<Longrightarrow>
   tasks (snd (HTTPFetcher_loop ext good Map.empty (NewRun n))) =
     map (\<lambda>c. (c, Path ext c)) (firsts (Path ext) (charmIds ext good))"
  by (simp add: HTTPFetcher_loop_ok NewRun_def fetched_def)

subsection \<open>Running the tasks\<close>

lemma run_tasks_Cons_fst:
  "fst (run_tasks body (t # ts) icons) =
     (case fst (body t icons) of
        None \<Rightarrow> fst (run_tasks body ts (snd (body t icons)))
      | Some err \<Rightarrow> err # fst (run_tasks body ts (snd (body t icons))))"
  by (simp split: prod.splits option.splits)

lemma run_tasks_Cons_snd:
  "snd (run_tasks body (t # ts) icons) = snd (run_tasks body ts (snd (body t icons)))"
  by (simp split: prod.splits option.splits)

lemma fst_task_body: "fst (task_body ext h client t icons) = task_error ext h client t"
  by (simp add: task_body_def task_error_def split: prod.splits sum.splits)

lemma snd_task_body:
  "snd (task_body ext h client t icons) =
     (case task_icon ext h client (fst t) of None \<Rightarrow> icons | Some icon \<Rightarrow> icons(snd t \<mapsto> icon))"
  by (simp add: task_body_def task_icon_def split: prod.splits sum.splits)

lemma run_tasks_errors:
  "fst (run_tasks (task_body ext h client) ts icons) = List.map_filter (task_error ext h client) ts"
proof (induction ts arbitrary: icons)
  case Nil
  then show ?case by (simp add: List.map_filter_simps)
next
  case (Cons t ts)
  show ?case
    unfolding run_tasks_Cons_fst fst_task_body
    by (simp add: Cons.IH List.map_filter_simps split: option.splits)
qed

lemma run_tasks_icons:
  "distinct (map snd ts) \<Longrightarrow>
   snd (run_tasks (task_body ext h client) ts icons) p =
     (case find (\<lambda>t. snd t = p) ts of
        None \<Rightarrow> icons p
      | Some t \<Rightarrow> (case task_icon ext h client (fst t) of None \<Rightarrow> icons p | Some icon \<Rightarrow> Some icon))"
proof (induction ts arbitrary: icons)
  case Nil
  then show ?case by simp
next
  case (Cons t ts)
  from Cons.prems have "snd t \<notin> snd ` set ts" by simp
  then have q: "find (\<lambda>t'. snd t' = snd t) ts = None"
    unfolding find_None_iff by (metis imageI)
  from Cons.prems have d: "distinct (map snd ts)" by simp
  show ?case
    unfolding run_tasks_Cons_snd snd_task_body
    using q by (auto simp: Cons.IH [OF d] split: option.splits)
qed

text \<open>
  The order in which the runner takes the tasks does not matter: the paths of the tasks
  are distinct, so any other order leaves the same map and the same failures.
\<close>

lemma find_distinct_key:
  "distinct (map snd ts) \<Longrightarrow> (find (\<lambda>t. snd t = p) ts = Some t) = (t \<in> set ts \<and> snd t = p)"
proof (induction ts)
  case Nil
  then show ?case by simp
next
  case (Cons a ts)
  from Cons.prems have "snd a \<notin> snd ` set ts" by simp
  then have "t \<in> set ts \<Longrightarrow> snd t \<noteq> snd a" by (metis imageI)
  with Cons show ?case by auto
qed

lemma find_same_set:
  assumes "distinct (map snd ts)" and "distinct (map snd ts')" and "set ts' = set ts"
  shows "find (\<lambda>t. snd t = p) ts' = find (\<lambda>t. snd t = p) ts"
proof (cases "find (\<lambda>t. snd t = p) ts")
  case None
  then have "find (\<lambda>t. snd t = p) ts' = None"
    using assms(3) unfolding find_None_iff by simp
  with None show ?thesis by simp
next
  case (Some t)
  then have "find (\<lambda>t. snd t = p) ts' = Some t"
    using assms by (simp add: find_distinct_key)
  with Some show ?thesis by simp
qed

lemma run_tasks_order:
  assumes "distinct (map snd ts)" and "mset ts' = mset ts"
  shows "snd (run_tasks (task_body ext h client) ts' icons) =
           snd (run_tasks (task_body ext h client) ts icons) \<and>
         mset (fst (run_tasks (task_body ext h client) ts' icons)) =
           mset (fst (run_tasks (task_body ext h client) ts icons))"
proof
  from assms(2) have "mset (map snd ts') = mset (map snd ts)" by simp
  with assms(1) have d': "distinct (map snd ts')"
    by (metis mset_eq_imp_distinct_iff)
  from assms(2) have s: "set ts' = set ts"
    by (rule mset_eq_setD)
  show "snd (run_tasks (task_body ext h client) ts' icons) =
           snd (run_tasks (task_body ext h client) ts icons)"
    by (rule ext) (simp add: run_tasks_icons [OF assms(1)] run_tasks_icons [OF d']
          find_same_set [OF assms(1) d' s])
  show "mset (fst (run_tasks (task_body ext h client) ts' icons)) =
           mset (fst (run_tasks (task_body ext h client) ts icons))"
    by (simp add: run_tasks_errors List.map_filter_def assms(2))
qed

subsection \<open>A call of HTTPFetcher.FetchIcons\<close>

lemma FetchIcons_unfold:
  assumes "HTTPFetcher_loop ext services Map.empty
             (NewRun (if Concurrency h \<le> 0 then 10 else Concurrency h)) = (e, r')"
  shows "HTTPFetcher_FetchIcons ext h services =
     \<lparr>returned =
        (case e of
           Some err \<Rightarrow> (None, Some err)
         | None \<Rightarrow>
            (let client = (case Client h of Some c \<Rightarrow> c | None \<Rightarrow> DefaultClient ext);
                 errs = fst (run_tasks (task_body ext h client) (tasks r') Map.empty);
                 icons' = snd (run_tasks (task_body ext h client) (tasks r') Map.empty)
             in if errs = [] then (Some icons', None)
                else (None, Some (WaitError (WaitErr ext errs))))),
      receiver = h,
      client_local = (case Client h of Some c \<Rightarrow> c | None \<Rightarrow> DefaultClient ext),
      concurrency_local = (if Concurrency h \<le> 0 then 10 else Concurrency h),
      runner = r'\<rparr>"
  using assms
  by (simp add: HTTPFetcher_FetchIcons_def run_Wait_def Let_def split: option.splits prod.splits)

lemma FetchIcons_runner:
  "runner (HTTPFetcher_FetchIcons ext h services) =
     snd (HTTPFetcher_loop ext services Map.empty
            (NewRun (if Concurrency h \<le> 0 then 10 else Concurrency h)))"
  by (cases "HTTPFetcher_loop ext services Map.empty
            (NewRun (if Concurrency h \<le> 0 then 10 else Concurrency h))")
     (simp add: FetchIcons_unfold)

lemma FetchIcons_client:
  "client_local (HTTPFetcher_FetchIcons ext h services) =
     (case Client h of Some c \<Rightarrow> c | None \<Rightarrow> DefaultClient ext)"
  by (cases "HTTPFetcher_loop ext services Map.empty
            (NewRun (if Concurrency h \<le> 0 then 10 else Concurrency h))")
     (simp add: FetchIcons_unfold)

lemma FetchIcons_tasks_ok:
  assumes "\<forall>raw\<in>set services. parses ext raw"
  shows "tasks (runner (HTTPFetcher_FetchIcons ext h services)) =
     map (\<lambda>c. (c, Path ext c)) (firsts (Path ext) (charmIds ext services))"
  by (simp add: FetchIcons_runner HTTPFetcher_loop_ok [OF assms] NewRun_def fetched_def)

lemma task_paths:
  assumes "\<forall>raw\<in>set services. parses ext raw"
  shows "map snd (tasks (runner (HTTPFetcher_FetchIcons ext h services))) =
           map (Path ext) (firsts (Path ext) (charmIds ext services))"
  by (simp add: FetchIcons_tasks_ok [OF assms] comp_def)

lemma FetchIcons_returned_ok:
  assumes "\<forall>raw\<in>set services. parses ext raw"
  shows "returned (HTTPFetcher_FetchIcons ext h services) =
     (let client = client_local (HTTPFetcher_FetchIcons ext h services);
          ts = tasks (runner (HTTPFetcher_FetchIcons ext h services));
          errs = List.map_filter (task_error ext h client) ts
      in if errs = []
         then (Some (\<lambda>p. case first_with_path ext services p of
                            None \<Rightarrow> None
                          | Some c \<Rightarrow> task_icon ext h client c), None)
         else (None, Some (WaitError (WaitErr ext errs))))"
proof -
  let ?n = "if Concurrency h \<le> 0 then 10 else Concurrency h"
  let ?cl = "case Client h of Some c \<Rightarrow> c | None \<Rightarrow> DefaultClient ext"
  let ?ts = "map (\<lambda>c. (c, Path ext c)) (firsts (Path ext) (charmIds ext services))"
  obtain r' where loop: "HTTPFetcher_loop ext services Map.empty (NewRun ?n) = (None, r')"
    and r': "tasks r' = ?ts"
    using HTTPFetcher_loop_ok [OF assms, of Map.empty "NewRun ?n"]
    by (simp add: NewRun_def fetched_def)
  have d: "distinct (map snd ?ts)"
    using distinct_firsts [of "Path ext" "charmIds ext services"] by (simp add: comp_def)
  have icons: "snd (run_tasks (task_body ext h ?cl) ?ts Map.empty) =
      (\<lambda>p. case first_with_path ext services p of None \<Rightarrow> None | Some c \<Rightarrow> task_icon ext h ?cl c)"
    by (rule ext)
       (simp add: run_tasks_icons [OF d] find_map_task find_firsts first_with_path_def
             split: option.splits)
  show ?thesis
    unfolding FetchIcons_unfold [OF loop]
    by (simp add: r' icons run_tasks_errors Let_def)
qed

lemma first_with_path_task:
  assumes "\<forall>raw\<in>set services. parses ext raw" and "first_with_path ext services p = Some c"
  shows "(c, p) \<in> set (tasks (runner (HTTPFetcher_FetchIcons ext h services)))"
proof -
  from assms(2) have p: "Path ext c = p"
    by (auto simp: first_with_path_def dest: find_Some_iff [THEN iffD1])
  with assms(2) have "c \<in> set (firsts (Path ext) (charmIds ext services))"
    by (simp add: firsts_find first_with_path_def)
  with p show ?thesis
    by (auto simp: FetchIcons_tasks_ok [OF assms(1)])
qed

section \<open>The claims\<close>

text \<open>
  Claim C1.  When every charm reference of the bundle parses and, for \<open>HTTPFetcher\<close>,
  every fetch task succeeds, \<open>FetchIcons\<close> of either fetcher returns a map and no error,
  and the keys of the map are exactly the paths of the parsed references; a path that
  occurs several times in the bundle has one entry, and \<open>HTTPFetcher\<close> hands exactly one
  task for it to the runner, and none for any other path.
\<close>

theorem FetchIcons_key_set:
  assumes "\<forall>raw\<in>set services. parses ext raw"
    and "\<forall>t\<in>set (tasks (runner (HTTPFetcher_FetchIcons ext h services))).
           task_error ext h (client_local (HTTPFetcher_FetchIcons ext h services)) t = None"
  shows "(\<exists>icons. LinkFetcher_FetchIcons ext l services = (Some icons, None) \<and>
            dom icons = Path ext ` set (charmIds ext services)) \<and>
         (\<exists>icons. returned (HTTPFetcher_FetchIcons ext h services) = (Some icons, None) \<and>
            dom icons = Path ext ` set (charmIds ext services)) \<and>
         (\<forall>p. count_list (map snd (tasks (runner (HTTPFetcher_FetchIcons ext h services)))) p =
            (if p \<in> Path ext ` set (charmIds ext services) then 1 else 0))"
proof (intro conjI)
  let ?link = "\<lambda>p. case first_with_path ext services p of
                      None \<Rightarrow> None
                    | Some c \<Rightarrow> Some (image_tag (escapeString ext (LinkIconURL l c)))"
  have "LinkFetcher_FetchIcons ext l services = (Some ?link, None)"
    using LinkFetcher_loop_ok [OF assms(1), of l Map.empty Map.empty]
    by (simp add: LinkFetcher_FetchIcons_def fetched_def first_with_path_def)
  moreover have "dom ?link = Path ext ` set (charmIds ext services)"
    using first_with_path_dom [of ext services]
    by (auto simp: dom_def split: option.splits)
  ultimately show "\<exists>icons. LinkFetcher_FetchIcons ext l services = (Some icons, None) \<and>
            dom icons = Path ext ` set (charmIds ext services)"
    by blast
next
  let ?call = "HTTPFetcher_FetchIcons ext h services"
  let ?http = "\<lambda>p. case first_with_path ext services p of
                      None \<Rightarrow> None
                    | Some c \<Rightarrow> task_icon ext h (client_local ?call) c"
  have "List.map_filter (task_error ext h (client_local ?call)) (tasks (runner ?call)) = []"
    using assms(2) by (simp add: List.map_filter_def filter_empty_conv)
  then have "returned ?call = (Some ?http, None)"
    by (simp add: FetchIcons_returned_ok [OF assms(1)] Let_def)
  moreover have "dom ?http = Path ext ` set (charmIds ext services)"
  proof -
    have "task_icon ext h (client_local ?call) c \<noteq> None"
      if "first_with_path ext services p = Some c" for p c
      using assms(2) first_with_path_task [OF assms(1) that, of h]
      by (auto simp: task_error_def task_icon_def split: sum.splits)
    then show ?thesis
      using first_with_path_dom [of ext services]
      by (auto simp: dom_def split: option.splits)
  qed
  ultimately show "\<exists>icons. returned ?call = (Some icons, None) \<and>
            dom icons = Path ext ` set (charmIds ext services)"
    by blast
next
  show "\<forall>p. count_list (map snd (tasks (runner (HTTPFetcher_FetchIcons ext h services)))) p =
            (if p \<in> Path ext ` set (charmIds ext services) then 1 else 0)"
    using count_list_distinct [OF distinct_firsts [of "Path ext" "charmIds ext services"]]
      set_firsts [of "Path ext" "charmIds ext services"]
    by (simp add: task_paths [OF assms(1)])
qed

theorem FetchIcons_key_set_witness:
  "(\<exists>icons. LinkFetcher_FetchIcons example_ext example_link
       [''cs:trusty/mysql'', ''wordpress'', ''trusty/mysql'', ''cs:trusty/mysql''] = (Some icons, None) \<and>
       dom icons = {''trusty/mysql'', ''wordpress''}) \<and>
   (\<exists>icons. returned (HTTPFetcher_FetchIcons example_ext example_http
       [''cs:trusty/mysql'', ''wordpress'', ''trusty/mysql'', ''cs:trusty/mysql'']) = (Some icons, None) \<and>
       dom icons = {''trusty/mysql'', ''wordpress''}) \<and>
   count_list (map snd (tasks (runner (HTTPFetcher_FetchIcons example_ext example_http
       [''cs:trusty/mysql'', ''wordpress'', ''trusty/mysql'', ''cs:trusty/mysql''])))) ''trusty/mysql'' = 1"
proof -
  let ?services = "[''cs:trusty/mysql'', ''wordpress'', ''trusty/mysql'', ''cs:trusty/mysql'']"
  have parse: "\<forall>raw\<in>set ?services. parses example_ext raw"
    by code_simp
  have fetch: "\<forall>t\<in>set (tasks (runner (HTTPFetcher_FetchIcons example_ext example_http ?services))).
      task_error example_ext example_http
        (client_local (HTTPFetcher_FetchIcons example_ext example_http ?services)) t = None"
    by code_simp
  have paths: "Path example_ext ` set (charmIds example_ext ?services) = {''trusty/mysql'', ''wordpress''}"
    by code_simp
  show ?thesis
    using FetchIcons_key_set [OF parse fetch, of example_link] unfolding paths by simp
qed

text \<open>
  Claim C2, as amended.  Let the loop meet the malformed reference \<open>bad\<close> after the
  references \<open>good\<close>, which all parse.  Then \<open>FetchIcons\<close> of either fetcher returns the
  nil map and the error that names \<open>bad\<close> and wraps the error of the parser.
  \<open>HTTPFetcher\<close> has by then handed to the runner the tasks of \<open>good\<close>, exactly those a
  call on \<open>good\<close> alone hands over, and no task for \<open>bad\<close> or for what comes after it:
  no task at all only if \<open>bad\<close> comes first.  The claim as stated, that no fetch task is
  performed once a bundle holds a malformed reference, fails: see the bundle after the
  theorem.
\<close>

theorem FetchIcons_parse_error:
  assumes "\<forall>raw\<in>set good. parses ext raw" and "ParseReference ext bad = Inl err"
  shows "LinkFetcher_FetchIcons ext l (good @ bad # rest) = (None, Some (CannotParseCharm bad err)) \<and>
         returned (HTTPFetcher_FetchIcons ext h (good @ bad # rest)) =
           (None, Some (CannotParseCharm bad err)) \<and>
         tasks (runner (HTTPFetcher_FetchIcons ext h (good @ bad # rest))) =
           tasks (runner (HTTPFetcher_FetchIcons ext h good)) \<and>
         (tasks (runner (HTTPFetcher_FetchIcons ext h (good @ bad # rest))) = []) = (good = [])"
proof -
  let ?n = "if Concurrency h \<le> 0 then 10 else Concurrency h"
  let ?r = "snd (HTTPFetcher_loop ext good Map.empty (NewRun ?n))"
  have loop: "HTTPFetcher_loop ext (good @ bad # rest) Map.empty (NewRun ?n) =
      (Some (CannotParseCharm bad err), ?r)"
    by (rule HTTPFetcher_loop_err [OF assms])
  have "LinkFetcher_FetchIcons ext l (good @ bad # rest) = (None, Some (CannotParseCharm bad err))"
    by (simp add: LinkFetcher_FetchIcons_def LinkFetcher_loop_err [OF assms])
  moreover have "returned (HTTPFetcher_FetchIcons ext h (good @ bad # rest)) =
      (None, Some (CannotParseCharm bad err))"
    by (simp add: FetchIcons_unfold [OF loop])
  moreover have "tasks (runner (HTTPFetcher_FetchIcons ext h (good @ bad # rest))) =
      tasks (runner (HTTPFetcher_FetchIcons ext h good))"
    by (simp add: FetchIcons_unfold [OF loop] FetchIcons_runner)
  moreover have "(tasks (runner (HTTPFetcher_FetchIcons ext h (good @ bad # rest))) = []) = (good = [])"
    by (simp add: FetchIcons_unfold [OF loop] loop_good_tasks [OF assms(1)] firsts_Nil
          charmIds_Nil [OF assms(1)])
  ultimately show ?thesis by blast
qed

theorem FetchIcons_parse_error_witness:
  "LinkFetcher_FetchIcons example_ext example_link
       ([''cs:trusty/mysql'', ''trusty/mysql''] @ ''not a valid ref'' # [''wordpress'']) =
     (None, Some (CannotParseCharm ''not a valid ref'' ''charm URL has invalid form'')) \<and>
   returned (HTTPFetcher_FetchIcons example_ext example_http
       ([''cs:trusty/mysql'', ''trusty/mysql''] @ ''not a valid ref'' # [''wordpress''])) =
     (None, Some (CannotParseCharm ''not a valid ref'' ''charm URL has invalid form'')) \<and>
   tasks (runner (HTTPFetcher_FetchIcons example_ext example_http
       ([''cs:trusty/mysql'', ''trusty/mysql''] @ ''not a valid ref'' # [''wordpress'']))) =
     [((''cs'', ''trusty/mysql''), ''trusty/mysql'')]"
proof -
  have good: "\<forall>raw\<in>set [''cs:trusty/mysql'', ''trusty/mysql'']. parses example_ext raw"
    by code_simp
  have bad: "ParseReference example_ext ''not a valid ref'' = Inl ''charm URL has invalid form''"
    by code_simp
  have prefix: "tasks (runner (HTTPFetcher_FetchIcons example_ext example_http
      [''cs:trusty/mysql'', ''trusty/mysql''])) = [((''cs'', ''trusty/mysql''), ''trusty/mysql'')]"
    by code_simp
  show ?thesis
    using FetchIcons_parse_error [OF good bad, of example_link "[''wordpress'']" example_http]
    unfolding prefix by simp
qed

text \<open>
  The bundle with a valid reference visited before a malformed one: the call returns the
  parse error, and the runner holds the fetch task of the valid reference, handed to
  \<open>Do\<close> before the malformed one was parsed.
\<close>

theorem parse_error_after_submit:
  "\<not> parses example_ext ''not a valid ref'' \<and>
   returned (HTTPFetcher_FetchIcons example_ext example_http
       [''cs:trusty/mysql'', ''not a valid ref'']) =
     (None, Some (CannotParseCharm ''not a valid ref'' ''charm URL has invalid form'')) \<and>
   tasks (runner (HTTPFetcher_FetchIcons example_ext example_http
       [''cs:trusty/mysql'', ''not a valid ref''])) =
     [((''cs'', ''trusty/mysql''), ''trusty/mysql'')]"
  by (simp add: parses_def HTTPFetcher_FetchIcons_def example_ext_def example_parse_def
        example_http_def fetched_def NewRun_def run_Do_def Let_def)

text \<open>
  Claim C3.  When every reference parses and at least one fetch task fails,
  \<open>HTTPFetcher.FetchIcons\<close> returns the nil map and one error, the value \<open>Wait\<close> made of
  the failures; the map the other tasks have filled is not returned.
\<close>

theorem HTTPFetcher_task_failure:
  assumes "\<forall>raw\<in>set services. parses ext raw"
    and "\<exists>t\<in>set (tasks (runner (HTTPFetcher_FetchIcons ext h services))).
           task_error ext h (client_local (HTTPFetcher_FetchIcons ext h services)) t \<noteq> None"
  shows "List.map_filter (task_error ext h (client_local (HTTPFetcher_FetchIcons ext h services)))
           (tasks (runner (HTTPFetcher_FetchIcons ext h services))) \<noteq> [] \<and>
         returned (HTTPFetcher_FetchIcons ext h services) =
           (None, Some (WaitError (WaitErr ext
              (List.map_filter (task_error ext h (client_local (HTTPFetcher_FetchIcons ext h services)))
                 (tasks (runner (HTTPFetcher_FetchIcons ext h services)))))))"
proof -
  let ?call = "HTTPFetcher_FetchIcons ext h services"
  have ne: "List.map_filter (task_error ext h (client_local ?call)) (tasks (runner ?call)) \<noteq> []"
    using assms(2) by (simp add: List.map_filter_def filter_empty_conv)
  then show ?thesis
    by (simp add: FetchIcons_returned_ok [OF assms(1)] Let_def)
qed

theorem HTTPFetcher_task_failure_witness:
  "returned (HTTPFetcher_FetchIcons example_ext example_http
       [''cs:trusty/mysql'', ''gone'', ''wordpress'']) =
     (None, Some (WaitError [CannotRetrieveIcon ''/cs/gone.svg?a&b'' ''404 Not Found'']))"
proof -
  let ?services = "[''cs:trusty/mysql'', ''gone'', ''wordpress'']"
  let ?call = "HTTPFetcher_FetchIcons example_ext example_http ?services"
  have parse: "\<forall>raw\<in>set ?services. parses example_ext raw"
    by code_simp
  have fails: "\<exists>t\<in>set (tasks (runner ?call)).
      task_error example_ext example_http (client_local ?call) t \<noteq> None"
    by code_simp
  have errs: "WaitErr example_ext (List.map_filter
      (task_error example_ext example_http (client_local ?call)) (tasks (runner ?call))) =
      [CannotRetrieveIcon ''/cs/gone.svg?a&b'' ''404 Not Found'']"
    by code_simp
  show ?thesis
    using HTTPFetcher_task_failure [OF parse fails] unfolding errs by simp
qed

text \<open>
  Claim C5.  The runner of a call is made with the cap 10 when the field \<open>Concurrency\<close>
  is zero (unset) or negative, and with the value of the field when it is positive.
\<close>

theorem HTTPFetcher_concurrency_default:
  "maxPar (runner (HTTPFetcher_FetchIcons ext h services)) =
     (if Concurrency h \<le> 0 then 10 else Concurrency h)"
  by (simp only: FetchIcons_runner maxPar_loop) (simp add: NewRun_def)

theorem HTTPFetcher_concurrency_default_witness:
  "maxPar (runner (HTTPFetcher_FetchIcons example_ext (example_http\<lparr>Concurrency := 0\<rparr>)
       [''wordpress''])) = 10 \<and>
   maxPar (runner (HTTPFetcher_FetchIcons example_ext (example_http\<lparr>Concurrency := - 3\<rparr>)
       [''wordpress''])) = 10 \<and>
   maxPar (runner (HTTPFetcher_FetchIcons example_ext (example_http\<lparr>Concurrency := 4\<rparr>)
       [''wordpress''])) = 4"
  using HTTPFetcher_concurrency_default [of example_ext "example_http\<lparr>Concurrency := 0\<rparr>" "[''wordpress'']"]
    HTTPFetcher_concurrency_default [of example_ext "example_http\<lparr>Concurrency := - 3\<rparr>" "[''wordpress'']"]
    HTTPFetcher_concurrency_default [of example_ext "example_http\<lparr>Concurrency := 4\<rparr>" "[''wordpress'']"]
  by simp

text \<open>
  Claim C6, as amended.  \<open>fetchIcon\<close> returns an error if and only if the GET fails, or
  the status code of the response is not 200, or reading the body ends with an error;
  the error names the URL and wraps the cause, or carries the status line; otherwise
  \<open>fetchIcon\<close> returns the whole body.  The claim as stated, with "non-2xx" for the second
  case, fails: see the response after the theorem.
\<close>

theorem fetchIcon_outcomes:
  "(isl (fetchIcon ext url client) \<longleftrightarrow>
      (case Get ext client url of
         Inl err \<Rightarrow> True
       | Inr resp \<Rightarrow> StatusCode resp \<noteq> 200 \<or> snd (ReadAll resp) \<noteq> None)) \<and>
   (\<forall>err. Get ext client url = Inl err \<longrightarrow>
      fetchIcon ext url client = Inl (HTTPErrorFetching url err)) \<and>
   (\<forall>resp. Get ext client url = Inr resp \<and> StatusCode resp \<noteq> 200 \<longrightarrow>
      fetchIcon ext url client = Inl (CannotRetrieveIcon url (Status resp))) \<and>
   (\<forall>resp body err. Get ext client url = Inr resp \<and> StatusCode resp = 200 \<and>
        ReadAll resp = (body, Some err) \<longrightarrow>
      fetchIcon ext url client = Inl (CouldNotReadIcon url err)) \<and>
   (\<forall>resp body. Get ext client url = Inr resp \<and> StatusCode resp = 200 \<and>
        ReadAll resp = (body, None) \<longrightarrow>
      fetchIcon ext url client = Inr body)"
  by (auto simp: fetchIcon_def split: sum.splits prod.splits option.splits)

theorem fetchIcon_outcomes_witness:
  "fetchIcon example_ext ''/cs/wordpress.svg?a&b'' 0 = Inr ''<svg></svg>'' \<and>
   fetchIcon example_ext ''/cs/gone.svg?a&b'' 0 =
     Inl (CannotRetrieveIcon ''/cs/gone.svg?a&b'' ''404 Not Found'') \<and>
   fetchIcon example_ext ''/cs/cut.svg?a&b'' 0 =
     Inl (CouldNotReadIcon ''/cs/cut.svg?a&b'' ''unexpected EOF'') \<and>
   fetchIcon example_ext ''/cs/nowhere.svg?a&b'' 0 =
     Inl (HTTPErrorFetching ''/cs/nowhere.svg?a&b'' ''no such host'')"
proof -
  have ok: "Get example_ext 0 ''/cs/wordpress.svg?a&b'' =
      Inr \<lparr>StatusCode = 200, Status = ''200 OK'', ReadAll = (''<svg></svg>'', None)\<rparr>"
    by code_simp
  have gone: "Get example_ext 0 ''/cs/gone.svg?a&b'' =
      Inr \<lparr>StatusCode = 404, Status = ''404 Not Found'', ReadAll = ([], None)\<rparr>"
    by code_simp
  have cut: "Get example_ext 0 ''/cs/cut.svg?a&b'' =
      Inr \<lparr>StatusCode = 200, Status = ''200 OK'', ReadAll = (''<sv'', Some ''unexpected EOF'')\<rparr>"
    by code_simp
  have nowhere: "Get example_ext 0 ''/cs/nowhere.svg?a&b'' = Inl ''no such host''"
    by code_simp
  show ?thesis
    using fetchIcon_outcomes [of example_ext "''/cs/wordpress.svg?a&b''" 0]
      fetchIcon_outcomes [of example_ext "''/cs/gone.svg?a&b''" 0]
      fetchIcon_outcomes [of example_ext "''/cs/cut.svg?a&b''" 0]
      fetchIcon_outcomes [of example_ext "''/cs/nowhere.svg?a&b''" 0]
    unfolding ok gone cut nowhere by simp
qed

text \<open>
  A response whose status is 204, a 2xx status, and whose body reads without an error:
  \<open>fetchIcon\<close> returns an error.
\<close>

theorem fetchIcon_status_204:
  "Get example_ext 0 ''/cs/empty.svg?a&b'' =
     Inr \<lparr>StatusCode = 204, Status = ''204 No Content'', ReadAll = ([], None)\<rparr> \<and>
   fetchIcon example_ext ''/cs/empty.svg?a&b'' 0 =
     Inl (CannotRetrieveIcon ''/cs/empty.svg?a&b'' ''204 No Content'')"
  by code_simp

text \<open>
  Claim C7.  When every reference parses, \<open>LinkFetcher.FetchIcons\<close> returns the map that
  has, for every path of a parsed reference, the image tag with its fixed text around
  the escaped URL that \<open>IconURL\<close> gives for the reference of that path, the first one in
  the bundle; for a reference whose URL does not depend on which reference of its path
  is taken (so for a reference that is repeated), that is the URL of the reference
  itself.  \<open>escapeString\<close> returns what \<open>xml.EscapeText\<close> writes, and with the escaper of
  package xml the escaped URL is well escaped: no \<open><\<close> and no double quote is left in it,
  and every \<open>&\<close> starts a reference.
\<close>

theorem LinkFetcher_image_tags:
  assumes "\<forall>raw\<in>set services. parses ext raw"
  shows "LinkFetcher_FetchIcons ext l services =
           (Some (\<lambda>p. case first_with_path ext services p of
                         None \<Rightarrow> None
                       | Some c \<Rightarrow> Some (svg_before @ escapeString ext (LinkIconURL l c) @ svg_after)),
            None) \<and>
         (\<forall>c\<in>set (charmIds ext services).
            first_with_path ext services (Path ext c) \<noteq> None \<and>
            ((\<forall>c'\<in>set (charmIds ext services).
                 Path ext c' = Path ext c \<longrightarrow> LinkIconURL l c' = LinkIconURL l c) \<longrightarrow>
             (\<exists>c'. first_with_path ext services (Path ext c) = Some c' \<and>
                    LinkIconURL l c' = LinkIconURL l c))) \<and>
         (\<forall>url. escapeString ext url = EscapeText ext url) \<and>
         (EscapeText ext = xml_EscapeText \<longrightarrow> (\<forall>url. well_escaped (escapeString ext url)))"
proof (intro conjI ballI impI allI)
  show "LinkFetcher_FetchIcons ext l services =
           (Some (\<lambda>p. case first_with_path ext services p of
                         None \<Rightarrow> None
                       | Some c \<Rightarrow> Some (svg_before @ escapeString ext (LinkIconURL l c) @ svg_after)),
            None)"
    by (simp add: LinkFetcher_FetchIcons_ok [OF assms] image_tag_def cong: option.case_cong)
next
  fix c assume "c \<in> set (charmIds ext services)"
  then show "first_with_path ext services (Path ext c) \<noteq> None"
    using first_with_path_dom [of ext services "Path ext c"] by blast
next
  fix c
  assume c: "c \<in> set (charmIds ext services)"
    and same: "\<forall>c'\<in>set (charmIds ext services).
                 Path ext c' = Path ext c \<longrightarrow> LinkIconURL l c' = LinkIconURL l c"
  from c obtain c' where c': "first_with_path ext services (Path ext c) = Some c'"
    using first_with_path_dom [of ext services "Path ext c"] by auto
  then have "c' \<in> set (charmIds ext services) \<and> Path ext c' = Path ext c"
    unfolding first_with_path_def find_Some_iff by auto
  with same c' show "\<exists>c'. first_with_path ext services (Path ext c) = Some c' \<and>
                    LinkIconURL l c' = LinkIconURL l c"
    by auto
next
  fix url
  show "escapeString ext url = EscapeText ext url"
    by (simp add: escapeString_def)
next
  fix url
  assume "EscapeText ext = xml_EscapeText"
  then show "well_escaped (escapeString ext url)"
    by (simp add: escapeString_def well_escaped_EscapeText)
qed

theorem LinkFetcher_image_tags_witness:
  "(\<exists>icons. LinkFetcher_FetchIcons example_ext example_link
       [''cs:trusty/mysql'', ''cs:trusty/mysql''] = (Some icons, None) \<and>
     dom icons = {''trusty/mysql''} \<and>
     icons ''trusty/mysql'' = Some (svg_before @ ''/cs/trusty/mysql.svg?a&amp;b'' @ svg_after)) \<and>
   escapeString example_ext [CHR ''<'', CHR ''&'', CHR 0x22] = ''&lt;&amp;&#34;'' \<and>
   well_escaped (escapeString example_ext [CHR ''<'', CHR ''&'', CHR 0x22])"
proof -
  let ?services = "[''cs:trusty/mysql'', ''cs:trusty/mysql'']"
  let ?icons = "\<lambda>p. if p = ''trusty/mysql''
      then Some (svg_before @ ''/cs/trusty/mysql.svg?a&amp;b'' @ svg_after) else None"
  have parse: "\<forall>raw\<in>set ?services. parses example_ext raw"
    by code_simp
  have first: "first_with_path example_ext ?services p =
      (if p = ''trusty/mysql'' then Some (''cs'', ''trusty/mysql'') else None)" for p
    by (simp add: first_with_path_def example_defs)
  have url: "escapeString example_ext (LinkIconURL example_link (''cs'', ''trusty/mysql'')) =
      ''/cs/trusty/mysql.svg?a&amp;b''"
    by code_simp
  have escaper: "EscapeText example_ext = xml_EscapeText"
    by (simp add: example_ext_def)
  have escaped: "escapeString example_ext [CHR ''<'', CHR ''&'', CHR 0x22] = ''&lt;&amp;&#34;''"
    by code_simp
  note image_tags = LinkFetcher_image_tags [OF parse, of example_link]
  have "(\<lambda>p. case first_with_path example_ext ?services p of
              None \<Rightarrow> None
            | Some c \<Rightarrow>
                Some (svg_before @ escapeString example_ext (LinkIconURL example_link c) @ svg_after)) =
        ?icons"
    unfolding first using url by (auto intro!: ext)
  with image_tags
  have icons: "LinkFetcher_FetchIcons example_ext example_link ?services = (Some ?icons, None)"
    by (simp only:)
  have "dom ?icons = {''trusty/mysql''}"
    by (auto simp: dom_def split: if_splits)
  with icons have "\<exists>icons. LinkFetcher_FetchIcons example_ext example_link ?services = (Some icons, None) \<and>
     dom icons = {''trusty/mysql''} \<and>
     icons ''trusty/mysql'' = Some (svg_before @ ''/cs/trusty/mysql.svg?a&amp;b'' @ svg_after)"
    by (intro exI conjI) (assumption, assumption, simp)
  moreover from image_tags escaper
  have "well_escaped (escapeString example_ext [CHR ''<'', CHR ''&'', CHR 0x22])"
    by blast
  ultimately show ?thesis
    using escaped by blast
qed

text \<open>
  Claim C8.  For a bundle without services both fetchers return an empty map, not the
  nil map, and no error, and \<open>HTTPFetcher\<close> hands no task to the runner.
\<close>

theorem FetchIcons_empty:
  "LinkFetcher_FetchIcons ext l [] = (Some Map.empty, None) \<and>
   returned (HTTPFetcher_FetchIcons ext h []) = (Some Map.empty, None) \<and>
   tasks (runner (HTTPFetcher_FetchIcons ext h [])) = []"
  by (simp add: LinkFetcher_FetchIcons_def HTTPFetcher_FetchIcons_def run_Wait_def NewRun_def Let_def)

text \<open>
  Claim C9.  Two different strings of a bundle whose references have the same path are
  one identifier: \<open>HTTPFetcher\<close> hands the runner one task for the path, the task of the
  first reference of the bundle with that path; the map it returns has the icon of that
  task under the path; and the map of \<open>LinkFetcher\<close> has the image tag of that first
  reference under the path.
\<close>

theorem dedup_by_Path:
  assumes "\<forall>raw\<in>set services. parses ext raw"
    and "raw1 \<in> set services" and "raw2 \<in> set services" and "raw1 \<noteq> raw2"
    and "ParseReference ext raw1 = Inr c1" and "ParseReference ext raw2 = Inr c2"
    and "Path ext c1 = Path ext c2"
  shows "\<exists>c0. first_with_path ext services (Path ext c1) = Some c0 \<and>
           filter (\<lambda>t. snd t = Path ext c1) (tasks (runner (HTTPFetcher_FetchIcons ext h services))) =
             [(c0, Path ext c1)] \<and>
           (\<forall>icons. returned (HTTPFetcher_FetchIcons ext h services) = (Some icons, None) \<longrightarrow>
              icons (Path ext c1) =
                task_icon ext h (client_local (HTTPFetcher_FetchIcons ext h services)) c0 \<and>
              icons (Path ext c1) \<noteq> None) \<and>
           (\<exists>icons. LinkFetcher_FetchIcons ext l services = (Some icons, None) \<and>
              icons (Path ext c1) = Some (image_tag (escapeString ext (LinkIconURL l c0))))"
proof -
  let ?call = "HTTPFetcher_FetchIcons ext h services"
  let ?p = "Path ext c1"
  have "c1 \<in> set (charmIds ext services)"
    using assms(2,5) by (induction services) (auto split: sum.splits)
  then obtain c0 where c0: "first_with_path ext services ?p = Some c0"
    using first_with_path_dom [of ext services ?p] by auto
  have in_tasks: "(c0, ?p) \<in> set (tasks (runner ?call))"
    by (rule first_with_path_task [OF assms(1) c0])
  have d: "distinct (map snd (tasks (runner ?call)))"
    using distinct_firsts [of "Path ext" "charmIds ext services"]
    by (simp add: task_paths [OF assms(1)])
  note only = filter_distinct_key
  have http: "icons ?p = task_icon ext h (client_local ?call) c0 \<and> icons ?p \<noteq> None"
    if r: "returned ?call = (Some icons, None)" for icons
  proof -
    let ?errs = "List.map_filter (task_error ext h (client_local ?call)) (tasks (runner ?call))"
    from r have e: "?errs = []"
      using FetchIcons_returned_ok [OF assms(1), of h] by (auto simp: Let_def split: if_splits)
    with r have "icons = (\<lambda>p. case first_with_path ext services p of
                            None \<Rightarrow> None
                          | Some c \<Rightarrow> task_icon ext h (client_local ?call) c)"
      using FetchIcons_returned_ok [OF assms(1), of h] by (simp add: Let_def)
    then have 1: "icons ?p = task_icon ext h (client_local ?call) c0"
      by (simp add: c0)
    from e in_tasks have "task_error ext h (client_local ?call) (c0, ?p) = None"
      by (auto simp: List.map_filter_def filter_empty_conv)
    then have "task_icon ext h (client_local ?call) c0 \<noteq> None"
      by (auto simp: task_error_def task_icon_def split: sum.splits)
    with 1 show ?thesis by simp
  qed
  have link: "\<exists>icons. LinkFetcher_FetchIcons ext l services = (Some icons, None) \<and>
              icons ?p = Some (image_tag (escapeString ext (LinkIconURL l c0)))"
    by (simp add: LinkFetcher_FetchIcons_ok [OF assms(1)] c0)
  from c0 only [OF d in_tasks] http link show ?thesis
    by blast
qed

theorem dedup_by_Path_witness:
  "filter (\<lambda>t. snd t = ''trusty/mysql'')
     (tasks (runner (HTTPFetcher_FetchIcons example_ext example_http
        [''cs:trusty/mysql'', ''wordpress'', ''local:trusty/mysql'']))) =
     [((''cs'', ''trusty/mysql''), ''trusty/mysql'')] \<and>
   (\<exists>icons. LinkFetcher_FetchIcons example_ext example_link
        [''cs:trusty/mysql'', ''wordpress'', ''local:trusty/mysql''] = (Some icons, None) \<and>
      icons ''trusty/mysql'' =
        Some (image_tag (escapeString example_ext (LinkIconURL example_link (''cs'', ''trusty/mysql'')))))"
proof -
  let ?services = "[''cs:trusty/mysql'', ''wordpress'', ''local:trusty/mysql'']"
  have parse: "\<forall>raw\<in>set ?services. parses example_ext raw"
    by code_simp
  have r1: "ParseReference example_ext ''cs:trusty/mysql'' = Inr (''cs'', ''trusty/mysql'')"
    by code_simp
  have r2: "ParseReference example_ext ''local:trusty/mysql'' = Inr (''local'', ''trusty/mysql'')"
    by code_simp
  have first: "first_with_path example_ext ?services ''trusty/mysql'' = Some (''cs'', ''trusty/mysql'')"
    by code_simp
  have m1: "''cs:trusty/mysql'' \<in> set ?services" and m2: "''local:trusty/mysql'' \<in> set ?services"
    and ne: "''cs:trusty/mysql'' \<noteq> ''local:trusty/mysql''"
    by simp_all
  have path: "Path example_ext (''cs'', ''trusty/mysql'') = ''trusty/mysql''"
    and same: "Path example_ext (''cs'', ''trusty/mysql'') = Path example_ext (''local'', ''trusty/mysql'')"
    by (simp_all add: example_ext_def)
  from dedup_by_Path [OF parse m1 m2 ne r1 r2 same, of example_http example_link]
  obtain c0 where c0: "first_with_path example_ext ?services (Path example_ext (''cs'', ''trusty/mysql'')) = Some c0"
    and f: "filter (\<lambda>t. snd t = Path example_ext (''cs'', ''trusty/mysql''))
        (tasks (runner (HTTPFetcher_FetchIcons example_ext example_http ?services))) =
        [(c0, Path example_ext (''cs'', ''trusty/mysql''))]"
    and l: "\<exists>icons. LinkFetcher_FetchIcons example_ext example_link ?services = (Some icons, None) \<and>
        icons (Path example_ext (''cs'', ''trusty/mysql'')) =
          Some (image_tag (escapeString example_ext (LinkIconURL example_link c0)))"
    by blast
  from c0 have "c0 = (''cs'', ''trusty/mysql'')"
    unfolding path first by simp
  with f l show ?thesis
    unfolding path by simp
qed

text \<open>
  Claim C10.  A call leaves the receiver as it was: the defaults for the client and the
  concurrency go to the locals, so a later call on the same receiver starts from the
  same fields.
\<close>

theorem HTTPFetcher_receiver_unchanged:
  "receiver (HTTPFetcher_FetchIcons ext h services) = h \<and>
   client_local (HTTPFetcher_FetchIcons ext h services) =
     (case Client h of Some c \<Rightarrow> c | None \<Rightarrow> DefaultClient ext) \<and>
   concurrency_local (HTTPFetcher_FetchIcons ext h services) =
     (if Concurrency h \<le> 0 then 10 else Concurrency h) \<and>
   HTTPFetcher_FetchIcons ext (receiver (HTTPFetcher_FetchIcons ext h services)) services' =
     HTTPFetcher_FetchIcons ext h services'"
proof -
  obtain e r' where loop: "HTTPFetcher_loop ext services Map.empty
      (NewRun (if Concurrency h \<le> 0 then 10 else Concurrency h)) = (e, r')"
    by (cases "HTTPFetcher_loop ext services Map.empty
      (NewRun (if Concurrency h \<le> 0 then 10 else Concurrency h))")
  show ?thesis
    by (simp add: FetchIcons_unfold [OF loop])
qed

end
